theory Spec2Isabelle
  imports Main
begin

section \<open>The TDT greedy decode loop of scripts/onnx/test_tdt_decode.py\<close>

text \<open>
  The script decodes one utterance with a token-and-duration transducer: a \<open>while\<close> loop
  (lines 59 to 83) calls the decoder session once per iteration, takes the arg-max of the
  vocabulary-plus-blank logits and, on a non-blank label, the arg-max of the duration
  logits, and moves the frame index \<open>t\<close> forward. Line 85 joins the vocabulary pieces of
  the emitted ids into the transcript.

  Python exceptions are values of \<open>py_exn\<close>; every function that can raise returns
  \<open>py_exn + 'a\<close> with \<open>Inl\<close> for the exception.
\<close>

datatype py_exn = SessionFailure | IndexError | ValueError

subsection \<open>Library operations used by the loop\<close>

text \<open>
  A logit is a float. Floats without NaN are linearly ordered, so a logit is a value of
  \<open>'a option\<close> over any linear order \<open>'a\<close>, with \<open>None\<close> for NaN. Every comparison
  with NaN is false.
\<close>

definition le_f :: "'a::linorder option \<Rightarrow> 'a option \<Rightarrow> bool" where
  "le_f x y = (case x of None \<Rightarrow> False
               | Some a \<Rightarrow> (case y of None \<Rightarrow> False | Some b \<Rightarrow> a \<le> b))"

text \<open>
  \<open>np.argmax\<close> on a one-dimensional float array: a left-to-right scan that keeps the
  first maximum, replaces it only by an element that is not \<open>\<le>\<close> it, and stops at the
  first NaN. \<open>argmax_scan mp mi i xs\<close> is the scan with current maximum \<open>mp\<close> at index
  \<open>mi\<close>, the remaining elements \<open>xs\<close> starting at index \<open>i\<close>. An empty array raises
  ValueError.
\<close>

fun argmax_scan :: "'a::linorder option \<Rightarrow> nat \<Rightarrow> nat \<Rightarrow> 'a option list \<Rightarrow> nat" where
  "argmax_scan mp mi i [] = mi"
| "argmax_scan mp mi i (x # xs) =
     (if \<not> le_f x mp
      then (if x = None then i else argmax_scan x i (Suc i) xs)
      else argmax_scan mp mi (Suc i) xs)"

definition np_argmax :: "'a::linorder option list \<Rightarrow> py_exn + nat" where
  "np_argmax xs =
     (case xs of
        [] \<Rightarrow> Inl ValueError
      | x # rest \<Rightarrow> if x = None then Inr 0 else Inr (argmax_scan x 0 1 rest))"

text \<open>
  Indexing a Python list or one axis of an array with an integer: an index in
  \<open>[0, n)\<close> reads that element, an index in \<open>[-n, 0)\<close> counts from the end, anything
  else raises IndexError.
\<close>

definition py_index :: "'a list \<Rightarrow> int \<Rightarrow> py_exn + 'a" where
  "py_index xs i =
     (if 0 \<le> i \<and> i < int (length xs) then Inr (xs ! nat i)
      else if i < 0 \<and> - int (length xs) \<le> i then Inr (xs ! nat (int (length xs) + i))
      else Inl IndexError)"

subsection \<open>The loop state and one iteration\<close>

text \<open>
  The variables the loop assigns: \<open>tokens\<close>, \<open>t\<close>, \<open>last_label\<close>, \<open>iters\<close> and the two
  recurrent tensors \<open>lstm_h\<close>, \<open>lstm_c\<close>, whose values are opaque (\<open>'st\<close>).
\<close>

record 'st decode_state =
  tokens :: "int list"
  t :: int
  last_label :: int
  iters :: int
  lstm_h :: 'st
  lstm_c :: 'st

text \<open>
  \<open>dec_sess.run\<close> with the encoder output of the utterance fixed: from \<open>targets\<close> (the
  last label) and the two input states it returns the joint tensor and the two output
  states, or raises. The joint tensor has shape \<open>[1, frames, 1, logits]\<close>; the model keeps
  the two axes the loop indexes with a variable or slices, as a list of logit vectors,
  one per frame.
\<close>

type_synonym ('a, 'st) session =
  "int \<Rightarrow> 'st \<Rightarrow> 'st \<Rightarrow> py_exn + ('a option list list \<times> 'st \<times> 'st)"

text \<open>
  Lines 64 to 83, the body of the \<open>while\<close>. The blank id and the duration table are the
  constants of lines 54 and 55, taken as parameters here.
\<close>

definition loop_body ::
  "nat \<Rightarrow> int list \<Rightarrow> ('a::linorder, 'st) session \<Rightarrow> 'st decode_state
    \<Rightarrow> py_exn + 'st decode_state" where
  "loop_body blank durations dec_sess s =
     (let s1 = s\<lparr>iters := iters s + 1\<rparr> in
      case dec_sess (last_label s1) (lstm_h s1) (lstm_c s1) of
        Inl e \<Rightarrow> Inl e
      | Inr (joint, h, c) \<Rightarrow>
          (let s2 = s1\<lparr>lstm_h := h, lstm_c := c\<rparr> in
           case py_index joint (t s2) of
             Inl e \<Rightarrow> Inl e
           | Inr logits \<Rightarrow>
               (case np_argmax (take (blank + 1) logits) of
                  Inl e \<Rightarrow> Inl e
                | Inr best \<Rightarrow>
                    if best = blank then Inr (s2\<lparr>t := t s2 + 1\<rparr>)
                    else
                      (let s3 = s2\<lparr>tokens := tokens s2 @ [int best],
                                     last_label := int best\<rparr> in
                       case np_argmax (drop (blank + 1) logits) of
                         Inl e \<Rightarrow> Inl e
                       | Inr dur_idx \<Rightarrow>
                           (case py_index durations (int dur_idx) of
                              Inl e \<Rightarrow> Inl e
                            | Inr d \<Rightarrow> Inr (s3\<lparr>t := t s3 + max 1 d\<rparr>))))))"

text \<open>Line 63, the loop condition; \<open>mult\<close> is the source's literal 10.\<close>

definition loop_cond :: "int \<Rightarrow> int \<Rightarrow> 'st decode_state \<Rightarrow> bool" where
  "loop_cond enc_T mult s = (t s < enc_T \<and> iters s < enc_T * mult)"

subsection \<open>The loop\<close>

text \<open>
  The \<open>while\<close> loop from a given state: the final state, or the exception an iteration
  raised. Every iteration adds 1 to \<open>iters\<close>, which the condition bounds, so the
  recursion terminates.
\<close>

function tdt_loop ::
  "nat \<Rightarrow> int list \<Rightarrow> ('a::linorder, 'st) session \<Rightarrow> int \<Rightarrow> int \<Rightarrow> 'st decode_state
    \<Rightarrow> py_exn + 'st decode_state" where
  "tdt_loop blank durations dec_sess enc_T mult s =
     (if loop_cond enc_T mult s
      then (case loop_body blank durations dec_sess s of
              Inl e \<Rightarrow> Inl e
            | Inr s' \<Rightarrow> tdt_loop blank durations dec_sess enc_T mult s')
      else Inr s)"
  by pat_completeness auto
termination
  by (relation "measure (\<lambda>(blank, durations, dec_sess, enc_T, mult, s).
                  nat (enc_T * mult - iters s))")
     (auto simp: loop_cond_def loop_body_def Let_def split: sum.splits prod.splits if_splits)

text \<open>
  The state after exactly \<open>n\<close> iterations from \<open>s\<close>, when the loop performs that many;
  \<open>None\<close> when it leaves or raises earlier.
\<close>

fun loop_iter ::
  "nat \<Rightarrow> int list \<Rightarrow> ('a::linorder, 'st) session \<Rightarrow> int \<Rightarrow> int \<Rightarrow> nat \<Rightarrow> 'st decode_state
    \<Rightarrow> 'st decode_state option" where
  "loop_iter blank durations dec_sess enc_T mult 0 s = Some s"
| "loop_iter blank durations dec_sess enc_T mult (Suc n) s =
     (if loop_cond enc_T mult s
      then (case loop_body blank durations dec_sess s of
              Inl e \<Rightarrow> None
            | Inr s' \<Rightarrow> loop_iter blank durations dec_sess enc_T mult n s')
      else None)"

text \<open>Lines 56 to 62: the state at loop entry; \<open>h0\<close>, \<open>c0\<close> are the two zero tensors.\<close>

definition init_state :: "nat \<Rightarrow> 'st \<Rightarrow> 'st \<Rightarrow> 'st decode_state" where
  "init_state blank h0 c0 =
     \<lparr>tokens = [], t = 0, last_label = int blank, iters = 0, lstm_h = h0, lstm_c = c0\<rparr>"

text \<open>The constants of lines 54, 55 and 63, and the loop as the script runs it.\<close>

definition blank_id :: nat where
  "blank_id = 1024"

definition tdt_durations :: "int list" where
  "tdt_durations = [0, 1, 2, 3, 4]"

definition tdt_decode ::
  "('a::linorder, 'st) session \<Rightarrow> int \<Rightarrow> 'st \<Rightarrow> 'st \<Rightarrow> py_exn + 'st decode_state" where
  "tdt_decode dec_sess enc_T h0 c0 =
     tdt_loop blank_id tdt_durations dec_sess enc_T 10 (init_state blank_id h0 c0)"

text \<open>
  Modelled from the spec: the script computes no truncation flag. The specification's
  decode contract returns one, "truncated = (iterations reached the cap before
  \<open>t \<ge> T\<close>)", read off the final state here.
\<close>

definition truncated :: "int \<Rightarrow> int \<Rightarrow> 'st decode_state \<Rightarrow> bool" where
  "truncated enc_T mult s = (enc_T * mult \<le> iters s \<and> t s < enc_T)"

subsection \<open>Text assembly (line 85)\<close>

text \<open>
  A Python \<open>str\<close> is a sequence of Unicode code points, here a list of naturals. The
  marker glyph is U+2581. \<open>str.strip()\<close> removes the characters for which
  \<open>str.isspace\<close> holds from both ends.
\<close>

type_synonym ustr = "nat list"

definition ascii :: "string \<Rightarrow> ustr" where
  "ascii cs = map of_char cs"

definition marker :: nat where
  "marker = 0x2581"

definition is_space :: "nat \<Rightarrow> bool" where
  "is_space c =
     ((0x09 \<le> c \<and> c \<le> 0x0D) \<or> (0x1C \<le> c \<and> c \<le> 0x20) \<or> c = 0x85 \<or> c = 0xA0
      \<or> c = 0x1680 \<or> (0x2000 \<le> c \<and> c \<le> 0x200A) \<or> c = 0x2028 \<or> c = 0x2029
      \<or> c = 0x202F \<or> c = 0x205F \<or> c = 0x3000)"

definition py_strip :: "ustr \<Rightarrow> ustr" where
  "py_strip cs = rev (dropWhile is_space (rev (dropWhile is_space cs)))"

definition replace_marker :: "ustr \<Rightarrow> ustr" where
  "replace_marker cs = map (\<lambda>c. if c = marker then 0x20 else c) cs"

text \<open>
  The generator \<open>vocab[tid] for tid in tokens if tid < len(vocab)\<close> and the join: an id
  that passes the test is looked up with Python's indexing, so a negative id reads from
  the end of the vocabulary or raises.
\<close>

fun join_pieces :: "ustr list \<Rightarrow> int list \<Rightarrow> py_exn + ustr" where
  "join_pieces vocab [] = Inr []"
| "join_pieces vocab (tid # tids) =
     (if tid < int (length vocab)
      then (case py_index vocab tid of
              Inl e \<Rightarrow> Inl e
            | Inr piece \<Rightarrow>
                (case join_pieces vocab tids of
                   Inl e \<Rightarrow> Inl e
                 | Inr rest \<Rightarrow> Inr (piece @ rest)))
      else join_pieces vocab tids)"

definition assemble :: "ustr list \<Rightarrow> int list \<Rightarrow> py_exn + ustr" where
  "assemble vocab toks =
     (case join_pieces vocab toks of
        Inl e \<Rightarrow> Inl e
      | Inr joined \<Rightarrow> Inr (py_strip (replace_marker joined)))"

subsection \<open>Concrete sessions and inputs\<close>

text \<open>
  Stub sessions for the concrete runs below: \<open>const_session logits frames\<close> answers every
  call with \<open>frames\<close> copies of one logit vector and counts the calls in both states,
  so a committed state differs from the one passed in.
\<close>

definition const_session :: "'a option list \<Rightarrow> nat \<Rightarrow> ('a::linorder, nat) session" where
  "const_session logits frames lab h c = Inr (replicate frames logits, Suc h, Suc c)"

text \<open>
  Logit vectors for a vocabulary of two pieces (blank id 2) followed by the five duration
  classes: blank highest; piece 0 and duration index 0 highest; piece 0 and duration
  index 2 highest.
\<close>

definition logits_blank :: "int option list" where
  "logits_blank = [Some 0, Some 0, Some 1, Some 0, Some 0, Some 0, Some 0, Some 0]"

definition logits_tok0_dur0 :: "int option list" where
  "logits_tok0_dur0 = [Some 1, Some 0, Some 0, Some 1, Some 0, Some 0, Some 0, Some 0]"

definition logits_tok0_dur2 :: "int option list" where
  "logits_tok0_dur2 = [Some 1, Some 0, Some 0, Some 0, Some 0, Some 1, Some 0, Some 0]"

text \<open>
  A session for a vocabulary of two pieces whose answer depends on the label passed in:
  piece 0 is highest after the blank label, piece 1 after any other label, each with
  duration index 2.
\<close>

definition logits_tok1_dur2 :: "int option list" where
  "logits_tok1_dur2 = [Some 0, Some 1, Some 0, Some 0, Some 0, Some 1, Some 0, Some 0]"

definition alt_session :: "(int, nat) session" where
  "alt_session lab h c =
     Inr (replicate 3 (if lab = 2 then logits_tok0_dur2 else logits_tok1_dur2), Suc h, Suc c)"

text \<open>
  A logit vector for the script's blank id 1024: piece 7 highest among the 1025
  vocabulary-plus-blank logits, duration index 2 highest among the five duration logits.
\<close>

definition logits_tok7 :: "int option list" where
  "logits_tok7 = replicate 7 (Some 0) @ [Some 1] @ replicate 1017 (Some 0)"

definition logits_dur2 :: "int option list" where
  "logits_dur2 = [Some 0, Some 0, Some 1, Some 0, Some 0]"

definition logits_tok7_dur2 :: "int option list" where
  "logits_tok7_dur2 = logits_tok7 @ logits_dur2"

text \<open>
  The vocabulary of scenario D: \<open>_hi\<close>, \<open>_there\<close>, \<open>foo\<close>, \<open>bar\<close>, with the marker glyph
  written \<open>_\<close> here.
\<close>

definition vocab_D :: "ustr list" where
  "vocab_D = [marker # ascii ''hi'', marker # ascii ''there'', ascii ''foo'', ascii ''bar'']"

section \<open>Properties of the library operations\<close>

lemma argmax_scan_range:
  "argmax_scan mp mi i xs = mi \<or>
   (i \<le> argmax_scan mp mi i xs \<and> argmax_scan mp mi i xs < i + length xs)"
proof (induction xs arbitrary: mp mi i)
  case Nil
  then show ?case by simp
next
  case (Cons x xs)
  show ?case
    using Cons.IH [of x i "Suc i"] Cons.IH [of mp mi "Suc i"]
    by auto
qed

lemma np_argmax_less: "np_argmax xs = Inr k \<Longrightarrow> k < length xs"
proof (cases xs)
  case Nil
  assume "np_argmax xs = Inr k"
  with Nil show ?thesis by (simp add: np_argmax_def)
next
  case (Cons x rest)
  assume a: "np_argmax xs = Inr k"
  show ?thesis
    using a Cons argmax_scan_range [of x 0 1 rest]
    by (auto simp: np_argmax_def split: if_splits)
qed

lemma np_argmax_take_le:
  assumes "np_argmax (take (Suc blank) logits) = Inr best"
  shows "best \<le> blank"
  using np_argmax_less [OF assms] by simp

lemma argmax_scan_replicate_app:
  "le_f x mp \<Longrightarrow> argmax_scan mp mi i (replicate n x @ ys) = argmax_scan mp mi (i + n) ys"
  by (induction n arbitrary: i) simp_all

lemma argmax_scan_replicate:
  "le_f x mp \<Longrightarrow> argmax_scan mp mi i (replicate n x) = mi"
  using argmax_scan_replicate_app [of x mp mi i n "[]"] by simp

lemma py_index_nat:
  "py_index xs (int i) = Inr v \<Longrightarrow> i < length xs \<and> v = xs ! i"
  by (auto simp: py_index_def split: if_splits)

section \<open>One iteration\<close>

text \<open>
What a successful iteration did: the blank branch or the emit branch.
\<close>

lemma loop_body_InrD:
  assumes "loop_body blank durations dec_sess s = Inr s'"
  shows "\<exists>joint h c logits best.
           dec_sess (last_label s) (lstm_h s) (lstm_c s) = Inr (joint, h, c) \<and>
           py_index joint (t s) = Inr logits \<and>
           np_argmax (take (blank + 1) logits) = Inr best \<and>
           ((best = blank \<and>
             s' = s\<lparr>iters := iters s + 1, lstm_h := h, lstm_c := c, t := t s + 1\<rparr>) \<or>
            (best < blank \<and>
             (\<exists>dur_idx dv.
                np_argmax (drop (blank + 1) logits) = Inr dur_idx \<and>
                py_index durations (int dur_idx) = Inr dv \<and>
                s' = s\<lparr>iters := iters s + 1, lstm_h := h, lstm_c := c,
                       tokens := tokens s @ [int best], last_label := int best,
                       t := t s + max 1 dv\<rparr>)))"
proof -
  obtain joint h c where d: "dec_sess (last_label s) (lstm_h s) (lstm_c s) = Inr (joint, h, c)"
    using assms by (auto simp: loop_body_def Let_def split: sum.splits)
  obtain logits where l: "py_index joint (t s) = Inr logits"
    using assms d by (auto simp: loop_body_def Let_def split: sum.splits)
  obtain best where b: "np_argmax (take (blank + 1) logits) = Inr best"
    using assms d l by (auto simp: loop_body_def Let_def split: sum.splits)
  have le: "best \<le> blank" using np_argmax_take_le b by simp
  show ?thesis
  proof (cases "best = blank")
    case True
    then have "s' = s\<lparr>iters := iters s + 1, lstm_h := h, lstm_c := c, t := t s + 1\<rparr>"
      using assms d l b by (simp add: loop_body_def Let_def)
    with d l b True show ?thesis by blast
  next
    case False
    then have lt: "best < blank" using le by simp
    obtain dur_idx where di: "np_argmax (drop (blank + 1) logits) = Inr dur_idx"
      using assms d l b False by (auto simp: loop_body_def Let_def split: sum.splits)
    obtain dv where dv: "py_index durations (int dur_idx) = Inr dv"
      using assms d l b False di by (auto simp: loop_body_def Let_def split: sum.splits)
    have "s' = s\<lparr>iters := iters s + 1, lstm_h := h, lstm_c := c,
                   tokens := tokens s @ [int best], last_label := int best,
                   t := t s + max 1 dv\<rparr>"
      using assms d l b False di dv by (simp add: loop_body_def Let_def)
    with d l b lt di dv show ?thesis by blast
  qed
qed

lemma loop_body_iters:
  "loop_body blank durations dec_sess s = Inr s' \<Longrightarrow> iters s' = iters s + 1"
  by (drule loop_body_InrD) auto

lemma loop_body_t_advances:
  "loop_body blank durations dec_sess s = Inr s' \<Longrightarrow> t s + 1 \<le> t s'"
  by (drule loop_body_InrD) auto

lemma loop_body_t_upper:
  assumes "loop_body blank durations dec_sess s = Inr s'"
    and "\<forall>d\<in>set durations. d \<le> dmax" and "1 \<le> dmax"
  shows "t s' \<le> t s + dmax"
proof -
  from loop_body_InrD [OF assms(1)] consider
    (blank) "t s' = t s + 1"
    | (emit) dur_idx dv where "py_index durations (int dur_idx) = Inr dv" "t s' = t s + max 1 dv"
    by auto
  then show ?thesis
  proof cases
    case blank
    then show ?thesis using assms(3) by simp
  next
    case emit
    from py_index_nat [OF emit(1)] have "dv \<in> set durations" by simp
    then have "dv \<le> dmax" using assms(2) by blast
    then show ?thesis using emit(2) assms(3) by simp
  qed
qed

lemma loop_body_tokens:
  assumes "loop_body blank durations dec_sess s = Inr s'"
    and "\<forall>x\<in>set (tokens s). 0 \<le> x \<and> x < int blank"
  shows "\<forall>x\<in>set (tokens s'). 0 \<le> x \<and> x < int blank"
  using loop_body_InrD [OF assms(1)] assms(2) by auto

lemma loop_body_blank:
  assumes "dec_sess (last_label s) (lstm_h s) (lstm_c s) = Inr (joint, h, c)"
    and "py_index joint (t s) = Inr logits"
    and "np_argmax (take (blank + 1) logits) = Inr blank"
  shows "loop_body blank durations dec_sess s =
           Inr (s\<lparr>iters := iters s + 1, lstm_h := h, lstm_c := c, t := t s + 1\<rparr>)"
  using assms by (simp add: loop_body_def Let_def)

lemma loop_body_emit:
  assumes "dec_sess (last_label s) (lstm_h s) (lstm_c s) = Inr (joint, h, c)"
    and "0 \<le> t s" and "t s < int (length joint)"
    and "np_argmax (take (blank + 1) (joint ! nat (t s))) = Inr best" and "best \<noteq> blank"
    and "np_argmax (drop (blank + 1) (joint ! nat (t s))) = Inr dur_idx"
    and "dur_idx < length durations"
  shows "loop_body blank durations dec_sess s =
           Inr (s\<lparr>iters := iters s + 1, lstm_h := h, lstm_c := c,
                  tokens := tokens s @ [int best], last_label := int best,
                  t := t s + max 1 (durations ! dur_idx)\<rparr>)"
  using assms by (simp add: loop_body_def Let_def py_index_def)

section \<open>Runs of the loop\<close>

lemma loop_iter_add:
  "loop_iter blank durations dec_sess enc_T mult (m + k) s = Some s2 \<longleftrightarrow>
   (\<exists>s1. loop_iter blank durations dec_sess enc_T mult m s = Some s1 \<and>
         loop_iter blank durations dec_sess enc_T mult k s1 = Some s2)"
  by (induction m arbitrary: s) (auto split: sum.splits)

lemma loop_iter_iters:
  "loop_iter blank durations dec_sess enc_T mult n s = Some s' \<Longrightarrow> iters s' = iters s + int n"
proof (induction n arbitrary: s)
  case 0
  then show ?case by simp
next
  case (Suc n)
  then show ?case
    by (auto split: if_splits sum.splits dest!: loop_body_iters)
qed

lemma loop_iter_t:
  "loop_iter blank durations dec_sess enc_T mult n s = Some s' \<Longrightarrow> t s + int n \<le> t s'"
proof (induction n arbitrary: s)
  case 0
  then show ?case by simp
next
  case (Suc n)
  from Suc.prems obtain s1 where
    b: "loop_body blank durations dec_sess s = Inr s1" and
    r: "loop_iter blank durations dec_sess enc_T mult n s1 = Some s'"
    by (auto split: if_splits sum.splits)
  show ?case using Suc.IH [OF r] loop_body_t_advances [OF b] by simp
qed

lemma loop_iter_tokens:
  "loop_iter blank durations dec_sess enc_T mult n s = Some s' \<Longrightarrow>
   \<forall>x\<in>set (tokens s). 0 \<le> x \<and> x < int blank \<Longrightarrow>
   \<forall>x\<in>set (tokens s'). 0 \<le> x \<and> x < int blank"
proof (induction n arbitrary: s)
  case 0
  then show ?case by simp
next
  case (Suc n)
  from Suc.prems(1) obtain s1 where
    b: "loop_body blank durations dec_sess s = Inr s1" and
    r: "loop_iter blank durations dec_sess enc_T mult n s1 = Some s'"
    by (auto split: if_splits sum.splits)
  show ?case using Suc.IH [OF r loop_body_tokens [OF b Suc.prems(2)]] .
qed

text \<open>
The iteration that produced a state began under the loop condition.
\<close>

lemma loop_iter_Suc_last:
  "loop_iter blank durations dec_sess enc_T mult (Suc n) s = Some s' \<Longrightarrow>
   \<exists>s1. loop_iter blank durations dec_sess enc_T mult n s = Some s1 \<and> loop_cond enc_T mult s1 \<and>
        loop_body blank durations dec_sess s1 = Inr s'"
proof -
  assume a: "loop_iter blank durations dec_sess enc_T mult (Suc n) s = Some s'"
  have "loop_iter blank durations dec_sess enc_T mult (n + 1) s = Some s'" using a by simp
  then obtain s1 where 1: "loop_iter blank durations dec_sess enc_T mult n s = Some s1"
    and 2: "loop_iter blank durations dec_sess enc_T mult 1 s1 = Some s'"
    unfolding loop_iter_add by blast
  from 2 have "loop_cond enc_T mult s1 \<and> loop_body blank durations dec_sess s1 = Inr s'"
    by (auto split: if_splits sum.splits)
  with 1 show ?thesis by blast
qed

text \<open>
The loop stops: after some number of whole iterations it leaves or raises.
\<close>

lemma loop_stops:
  "\<exists>n s'. loop_iter blank durations dec_sess enc_T mult n s = Some s' \<and>
     ((\<not> loop_cond enc_T mult s' \<and> tdt_loop blank durations dec_sess enc_T mult s = Inr s') \<or>
      (loop_cond enc_T mult s' \<and>
       (\<exists>e. loop_body blank durations dec_sess s' = Inl e \<and>
            tdt_loop blank durations dec_sess enc_T mult s = Inl e)))"
proof (induction blank durations dec_sess enc_T mult s rule: tdt_loop.induct)
  case (1 blank durations dec_sess enc_T mult s)
  show ?case
  proof (cases "loop_cond enc_T mult s")
    case False
    then have "loop_iter blank durations dec_sess enc_T mult 0 s = Some s \<and>
       \<not> loop_cond enc_T mult s \<and> tdt_loop blank durations dec_sess enc_T mult s = Inr s"
      by simp
    then show ?thesis by blast
  next
    case True
    show ?thesis
    proof (cases "loop_body blank durations dec_sess s")
      case (Inl e)
      then have "loop_iter blank durations dec_sess enc_T mult 0 s = Some s \<and>
         loop_cond enc_T mult s \<and> loop_body blank durations dec_sess s = Inl e \<and>
         tdt_loop blank durations dec_sess enc_T mult s = Inl e"
        using True by simp
      then show ?thesis by blast
    next
      case (Inr s1)
      from "1.IH" [OF True Inr] obtain n s' where
        it: "loop_iter blank durations dec_sess enc_T mult n s1 = Some s'" and
        fin: "(\<not> loop_cond enc_T mult s' \<and> tdt_loop blank durations dec_sess enc_T mult s1 = Inr s') \<or>
          (loop_cond enc_T mult s' \<and>
           (\<exists>e. loop_body blank durations dec_sess s' = Inl e \<and>
                tdt_loop blank durations dec_sess enc_T mult s1 = Inl e))"
        by blast
      have it': "loop_iter blank durations dec_sess enc_T mult (Suc n) s = Some s'"
        using True Inr it by simp
      have eq: "tdt_loop blank durations dec_sess enc_T mult s =
                tdt_loop blank durations dec_sess enc_T mult s1"
        using True Inr by simp
      show ?thesis using it' fin unfolding eq by blast
    qed
  qed
qed

lemma tdt_loop_Inr_iter:
  assumes "tdt_loop blank durations dec_sess enc_T mult s = Inr sf"
  shows "\<not> loop_cond enc_T mult sf \<and>
         (\<exists>n. loop_iter blank durations dec_sess enc_T mult n s = Some sf)"
  using loop_stops [of blank durations dec_sess enc_T mult s] assms by auto

lemma loop_iter_init_iters:
  "loop_iter blank durations dec_sess enc_T mult n (init_state blank h0 c0) = Some s \<Longrightarrow>
   iters s = int n \<and> int n \<le> t s"
  using loop_iter_iters [of blank durations dec_sess enc_T mult n "init_state blank h0 c0" s]
        loop_iter_t [of blank durations dec_sess enc_T mult n "init_state blank h0 c0" s]
  by (simp add: init_state_def)

lemma loop_iter_init_bounds:
  assumes "1 \<le> enc_T" and "1 \<le> mult"
    and "loop_iter blank durations dec_sess enc_T mult n (init_state blank h0 c0) = Some s"
  shows "int n \<le> enc_T \<and> int n \<le> enc_T * mult"
proof (cases n)
  case 0
  have "0 \<le> enc_T * mult" using assms(1,2) by simp
  with 0 assms(1) show ?thesis by simp
next
  case (Suc k)
  with assms(3) loop_iter_Suc_last obtain s1 where
    1: "loop_iter blank durations dec_sess enc_T mult k (init_state blank h0 c0) = Some s1" and
    2: "loop_cond enc_T mult s1"
    by blast
  from loop_iter_init_iters [OF 1] 2 have "int k < enc_T" "int k < enc_T * mult"
    by (auto simp: loop_cond_def)
  with Suc show ?thesis by simp
qed

lemma loop_iter_init_t_upper:
  assumes "1 \<le> enc_T" and "\<forall>d\<in>set durations. d \<le> dmax" and "1 \<le> dmax"
    and "loop_iter blank durations dec_sess enc_T mult n (init_state blank h0 c0) = Some s"
  shows "t s \<le> enc_T - 1 + dmax"
proof (cases n)
  case 0
  with assms(4) have "t s = 0" by (auto simp: init_state_def)
  then show ?thesis using assms(1,3) by simp
next
  case (Suc k)
  with assms(4) loop_iter_Suc_last obtain s1 where
    c: "loop_cond enc_T mult s1" and
    b: "loop_body blank durations dec_sess s1 = Inr s"
    by blast
  from c have "t s1 \<le> enc_T - 1" by (simp add: loop_cond_def)
  then show ?thesis using loop_body_t_upper [OF b assms(2,3)] by simp
qed

text \<open>
  A session whose every frame ranks a non-blank label first and a duration index of
  duration 0: each iteration emits and advances \<open>t\<close> by 1.
\<close>

lemma zero_duration_step:
  assumes hyp: "\<forall>lab h c. \<exists>joint h' c'. dec_sess lab h c = Inr (joint, h', c') \<and>
             enc_T \<le> int (length joint) \<and>
             (\<forall>logits\<in>set joint. \<exists>best dur_idx.
                np_argmax (take (blank + 1) logits) = Inr best \<and> best \<noteq> blank \<and>
                np_argmax (drop (blank + 1) logits) = Inr dur_idx \<and>
                py_index durations (int dur_idx) = Inr 0)"
    and "0 \<le> t s" and "t s < enc_T"
  shows "\<exists>s'. loop_body blank durations dec_sess s = Inr s' \<and> t s' = t s + 1 \<and>
           iters s' = iters s + 1 \<and> length (tokens s') = Suc (length (tokens s))"
proof -
  from hyp obtain joint h c where
    d: "dec_sess (last_label s) (lstm_h s) (lstm_c s) = Inr (joint, h, c)" and
    len: "enc_T \<le> int (length joint)" and
    all: "\<forall>logits\<in>set joint. \<exists>best dur_idx.
                np_argmax (take (blank + 1) logits) = Inr best \<and> best \<noteq> blank \<and>
                np_argmax (drop (blank + 1) logits) = Inr dur_idx \<and>
                py_index durations (int dur_idx) = Inr 0"
    by blast
  have lt: "t s < int (length joint)" using assms(3) len by simp
  then have "joint ! nat (t s) \<in> set joint" using assms(2) by simp
  with all obtain best dur_idx where
    b: "np_argmax (take (blank + 1) (joint ! nat (t s))) = Inr best" and nb: "best \<noteq> blank" and
    di: "np_argmax (drop (blank + 1) (joint ! nat (t s))) = Inr dur_idx" and
    dv: "py_index durations (int dur_idx) = Inr 0"
    by blast
  from py_index_nat [OF dv] have dl: "dur_idx < length durations" and z: "durations ! dur_idx = 0"
    by simp_all
  show ?thesis
    using loop_body_emit [where dec_sess = dec_sess and s = s, OF d assms(2) lt b nb di dl] z
    by simp
qed

lemma zero_duration_run:
  assumes hyp: "\<forall>lab h c. \<exists>joint h' c'. dec_sess lab h c = Inr (joint, h', c') \<and>
             enc_T \<le> int (length joint) \<and>
             (\<forall>logits\<in>set joint. \<exists>best dur_idx.
                np_argmax (take (blank + 1) logits) = Inr best \<and> best \<noteq> blank \<and>
                np_argmax (drop (blank + 1) logits) = Inr dur_idx \<and>
                py_index durations (int dur_idx) = Inr 0)"
    and "1 \<le> mult"
    and "0 \<le> t s" and "t s \<le> enc_T" and "iters s = t s"
  shows "\<exists>sf. tdt_loop blank durations dec_sess enc_T mult s = Inr sf \<and> t sf = enc_T \<and>
           iters sf = enc_T \<and> int (length (tokens sf)) = int (length (tokens s)) + (enc_T - t s)"
  using assms
proof (induction blank durations dec_sess enc_T mult s rule: tdt_loop.induct)
  case (1 blank durations dec_sess enc_T mult s)
  show ?case
  proof (cases "t s < enc_T")
    case False
    then have "\<not> loop_cond enc_T mult s" by (simp add: loop_cond_def)
    then have "tdt_loop blank durations dec_sess enc_T mult s = Inr s" by simp
    moreover have "t s = enc_T" using False "1.prems"(4) by simp
    ultimately show ?thesis using "1.prems"(5) by simp
  next
    case True
    have "enc_T * 1 \<le> enc_T * mult" using "1.prems"(2,3) True by (intro mult_left_mono) simp_all
    then have c: "loop_cond enc_T mult s" using True "1.prems"(5) by (simp add: loop_cond_def)
    from zero_duration_step [OF "1.prems"(1) "1.prems"(3) True] obtain s' where
      b: "loop_body blank durations dec_sess s = Inr s'" and ts: "t s' = t s + 1" and
      its: "iters s' = iters s + 1" and ls: "length (tokens s') = Suc (length (tokens s))"
      by blast
    have p3: "0 \<le> t s'" and p4: "t s' \<le> enc_T" and p5: "iters s' = t s'"
      using ts its True "1.prems"(3,5) by simp_all
    from "1.IH" [OF c b "1.prems"(1) "1.prems"(2) p3 p4 p5] obtain sf where
      r: "tdt_loop blank durations dec_sess enc_T mult s' = Inr sf" and
      f: "t sf = enc_T" "iters sf = enc_T"
         "int (length (tokens sf)) = int (length (tokens s')) + (enc_T - t s')"
      by blast
    have "tdt_loop blank durations dec_sess enc_T mult s = Inr sf" using c b r by simp
    then show ?thesis using f ts ls by simp
  qed
qed

subsection \<open>Concrete runs\<close>

lemma run_blank:
  "tdt_loop 2 tdt_durations (const_session logits_blank 1) 1 10 (init_state 2 0 0) =
     Inr \<lparr>tokens = [], t = 1, last_label = 2, iters = 1, lstm_h = 1, lstm_c = 1\<rparr>"
  by (simp add: init_state_def loop_cond_def loop_body_def const_session_def logits_blank_def
        py_index_def np_argmax_def le_f_def tdt_durations_def)

lemma run_tok0_dur2_1:
  "loop_iter 2 tdt_durations (const_session logits_tok0_dur2 3) 3 10 1 (init_state 2 0 0) =
     Some \<lparr>tokens = [0], t = 2, last_label = 0, iters = 1, lstm_h = 1, lstm_c = 1\<rparr>"
  by (simp add: init_state_def loop_cond_def loop_body_def const_session_def
        logits_tok0_dur2_def py_index_def np_argmax_def le_f_def tdt_durations_def)

lemma run_tok0_dur2_2:
  "loop_iter 2 tdt_durations (const_session logits_tok0_dur2 3) 3 10 1
       \<lparr>tokens = [0], t = 2, last_label = 0, iters = 1, lstm_h = 1, lstm_c = 1\<rparr> =
     Some \<lparr>tokens = [0, 0], t = 4, last_label = 0, iters = 2, lstm_h = 2, lstm_c = 2\<rparr>"
  by (simp add: loop_cond_def loop_body_def const_session_def
        logits_tok0_dur2_def py_index_def np_argmax_def le_f_def tdt_durations_def)

lemma run_tok0_dur2:
  "tdt_loop 2 tdt_durations (const_session logits_tok0_dur2 3) 3 10 (init_state 2 0 0) =
     Inr \<lparr>tokens = [0, 0], t = 4, last_label = 0, iters = 2, lstm_h = 2, lstm_c = 2\<rparr>"
  by (simp add: init_state_def loop_cond_def loop_body_def const_session_def
        logits_tok0_dur2_def py_index_def np_argmax_def le_f_def tdt_durations_def)

lemma run_alt_1:
  "loop_iter 2 tdt_durations alt_session 3 10 1 (init_state 2 0 0) =
     Some \<lparr>tokens = [0], t = 2, last_label = 0, iters = 1, lstm_h = 1, lstm_c = 1\<rparr>"
  by (simp add: init_state_def loop_cond_def loop_body_def alt_session_def
        logits_tok0_dur2_def logits_tok1_dur2_def py_index_def np_argmax_def le_f_def
        tdt_durations_def)

lemma run_alt:
  "tdt_loop 2 tdt_durations alt_session 3 10 (init_state 2 0 0) =
     Inr \<lparr>tokens = [0, 1], t = 4, last_label = 1, iters = 2, lstm_h = 2, lstm_c = 2\<rparr>"
  by (simp add: init_state_def loop_cond_def loop_body_def alt_session_def
        logits_tok0_dur2_def logits_tok1_dur2_def py_index_def np_argmax_def le_f_def
        tdt_durations_def)

lemma length_logits_tok7: "length logits_tok7 = blank_id + 1"
  by (simp add: logits_tok7_def blank_id_def)

lemma argmax_logits_tok7: "np_argmax (take (blank_id + 1) logits_tok7_dur2) = Inr 7"
proof -
  have r7: "replicate 7 (Some (0::int)) = Some 0 # replicate 6 (Some 0)"
    by (simp add: numeral_eq_Suc)
  have tk: "take (blank_id + 1) logits_tok7_dur2 = logits_tok7"
    using length_logits_tok7 by (simp add: logits_tok7_dur2_def)
  have "np_argmax logits_tok7 = Inr 7"
    unfolding logits_tok7_def r7
    by (simp add: np_argmax_def argmax_scan_replicate_app argmax_scan_replicate le_f_def)
  with tk show ?thesis by simp
qed

lemma argmax_logits_dur2: "np_argmax (drop (blank_id + 1) logits_tok7_dur2) = Inr 2"
proof -
  have "drop (blank_id + 1) logits_tok7_dur2 = logits_dur2"
    using length_logits_tok7 by (simp add: logits_tok7_dur2_def)
  then show ?thesis by (simp add: logits_dur2_def np_argmax_def le_f_def)
qed

section \<open>The claims about the decode loop\<close>

text \<open>
  Claim C1. For every encoder length \<open>enc_T \<ge> 1\<close>, every session (a function, so
  deterministic) and every multiplier \<open>mult \<ge> 1\<close> (10 in the script), the loop stops
  within \<open>enc_T * mult\<close> iterations: after some number \<open>n\<close> of whole iterations, which
  the counter \<open>iters\<close> records, it either leaves by its condition with
  \<open>n \<le> enc_T * mult\<close> and returns that state, or iteration \<open>n + 1 \<le> enc_T * mult\<close>
  raises and the loop returns that exception.
\<close>

theorem decode_loop_terminates_within_cap:
  assumes "1 \<le> enc_T" and "1 \<le> mult"
  shows "\<exists>n s. loop_iter blank durations dec_sess enc_T mult n (init_state blank h0 c0) = Some s \<and>
           iters s = int n \<and>
           ((\<not> loop_cond enc_T mult s \<and>
             tdt_loop blank durations dec_sess enc_T mult (init_state blank h0 c0) = Inr s \<and>
             int n \<le> enc_T * mult) \<or>
            (loop_cond enc_T mult s \<and>
             (\<exists>e. loop_body blank durations dec_sess s = Inl e \<and>
                  tdt_loop blank durations dec_sess enc_T mult (init_state blank h0 c0) = Inl e) \<and>
             int n + 1 \<le> enc_T * mult))"
proof -
  from loop_stops [of blank durations dec_sess enc_T mult "init_state blank h0 c0"]
  obtain n s where
    it: "loop_iter blank durations dec_sess enc_T mult n (init_state blank h0 c0) = Some s" and
    fin: "(\<not> loop_cond enc_T mult s \<and>
           tdt_loop blank durations dec_sess enc_T mult (init_state blank h0 c0) = Inr s) \<or>
          (loop_cond enc_T mult s \<and>
           (\<exists>e. loop_body blank durations dec_sess s = Inl e \<and>
                tdt_loop blank durations dec_sess enc_T mult (init_state blank h0 c0) = Inl e))"
    by blast
  have i: "iters s = int n" using loop_iter_init_iters [OF it] by simp
  have b: "int n \<le> enc_T * mult" using loop_iter_init_bounds [OF assms it] by simp
  have c: "loop_cond enc_T mult s \<Longrightarrow> int n + 1 \<le> enc_T * mult"
    using i by (simp add: loop_cond_def)
  show ?thesis using it i b c fin by blast
qed

theorem decode_loop_terminates_within_cap_witness:
  "(1::int) \<le> 1 \<and> (1::int) \<le> 10 \<and>
   tdt_loop 2 tdt_durations (const_session logits_blank 1) 1 10 (init_state 2 0 0) =
     Inr \<lparr>tokens = [], t = 1, last_label = 2, iters = 1, lstm_h = 1, lstm_c = 1\<rparr> \<and>
   (\<exists>n s. loop_iter 2 tdt_durations (const_session logits_blank 1) 1 10 n (init_state 2 0 0) = Some s \<and>
           iters s = int n \<and>
           ((\<not> loop_cond 1 10 s \<and>
             tdt_loop 2 tdt_durations (const_session logits_blank 1) 1 10 (init_state 2 0 0) = Inr s \<and>
             int n \<le> 1 * 10) \<or>
            (loop_cond 1 10 s \<and>
             (\<exists>e. loop_body 2 tdt_durations (const_session logits_blank 1) s = Inl e \<and>
                  tdt_loop 2 tdt_durations (const_session logits_blank 1) 1 10 (init_state 2 0 0) = Inl e) \<and>
             int n + 1 \<le> 1 * 10)))"
proof -
  have h1: "(1::int) \<le> 1" and h2: "(1::int) \<le> 10" by simp_all
  show ?thesis
    using h1 h2 run_blank
      decode_loop_terminates_within_cap [OF h1 h2, of 2 tdt_durations "const_session logits_blank 1" 0 0]
    by blast
qed

text \<open>
  Claim C2, as the code has it. Lines 73 and 74 assign the session's output states before
  the label is looked at, so a blank step commits them like an emit step does: on a step
  whose best label is the blank id, the next state carries the states the session
  returned, \<open>t\<close> is advanced by 1, and \<open>tokens\<close> and \<open>last_label\<close> are unchanged.
\<close>

theorem blank_step_commits_session_state:
  assumes "dec_sess (last_label s) (lstm_h s) (lstm_c s) = Inr (joint, h, c)"
    and "py_index joint (t s) = Inr logits"
    and "np_argmax (take (blank + 1) logits) = Inr blank"
  shows "\<exists>s'. loop_body blank durations dec_sess s = Inr s' \<and>
           lstm_h s' = h \<and> lstm_c s' = c \<and> t s' = t s + 1 \<and>
           tokens s' = tokens s \<and> last_label s' = last_label s \<and> iters s' = iters s + 1"
  using assms loop_body_blank [where dec_sess = dec_sess and s = s and blank = blank]
  by simp

text \<open>
  The claim as stated, that the recurrent state is unchanged by a blank step, fails: the
  stub's first call is a blank step from the states 0, 0 and the next state holds 1, 1.
\<close>

theorem blank_step_changes_state_counterexample:
  "np_argmax (take (2 + 1) logits_blank) = Inr 2 \<and>
   lstm_h (init_state 2 0 0 :: nat decode_state) = 0 \<and>
   lstm_c (init_state 2 0 0 :: nat decode_state) = 0 \<and>
   loop_body 2 tdt_durations (const_session logits_blank 1) (init_state 2 0 0) =
     Inr \<lparr>tokens = [], t = 1, last_label = 2, iters = 1, lstm_h = 1, lstm_c = 1\<rparr>"
  by (simp add: init_state_def loop_body_def const_session_def logits_blank_def
        py_index_def np_argmax_def le_f_def tdt_durations_def)

theorem blank_step_commits_session_state_witness:
  "const_session logits_blank 1 (last_label (init_state 2 0 0)) (lstm_h (init_state 2 0 0))
       (lstm_c (init_state 2 0 0)) = Inr ([logits_blank], 1, 1) \<and>
   py_index [logits_blank] (t (init_state 2 0 0 :: nat decode_state)) = Inr logits_blank \<and>
   np_argmax (take (2 + 1) logits_blank) = Inr 2 \<and>
   (\<exists>s'. loop_body 2 tdt_durations (const_session logits_blank 1) (init_state 2 0 0) = Inr s' \<and>
         lstm_h s' = 1 \<and> lstm_c s' = 1 \<and> t s' = 1 \<and> tokens s' = [] \<and> last_label s' = 2 \<and>
         iters s' = 1)"
proof -
  have a: "const_session logits_blank 1 (last_label (init_state 2 0 0)) (lstm_h (init_state 2 0 0))
       (lstm_c (init_state 2 0 0)) = Inr ([logits_blank], 1, 1)"
    by (simp add: const_session_def init_state_def)
  have b: "py_index [logits_blank] (t (init_state 2 0 0 :: nat decode_state)) = Inr logits_blank"
    by (simp add: py_index_def init_state_def)
  have c: "np_argmax (take (2 + 1) logits_blank) = Inr 2"
    by (simp add: logits_blank_def np_argmax_def le_f_def)
  show ?thesis
    using a b c
      blank_step_commits_session_state [where dec_sess = "const_session logits_blank 1"
        and s = "init_state 2 0 0" and blank = 2 and durations = tdt_durations
        and joint = "[logits_blank]" and h = 1 and c = 1 and logits = logits_blank]
    by (simp add: init_state_def)
qed

text \<open>
  Claim C3, as the code has it. In every state a run from the initial state reaches,
  \<open>0 \<le> t\<close>; \<open>t < enc_T\<close> in every state from which a further iteration runs; \<open>t\<close>
  never decreases; \<open>t\<close> is at most \<open>enc_T - 1 + dmax\<close>, where \<open>dmax \<ge> 1\<close> bounds the
  duration table (so \<open>t\<close> can pass \<open>enc_T\<close> in the last iteration); and the counter
  \<open>iters\<close> is the number of iterations and at most \<open>enc_T * mult\<close>.
\<close>

theorem frame_index_invariant:
  assumes "1 \<le> enc_T" and "1 \<le> mult"
    and "\<forall>d\<in>set durations. d \<le> dmax" and "1 \<le> dmax"
    and "loop_iter blank durations dec_sess enc_T mult m (init_state blank h0 c0) = Some s1"
    and "loop_iter blank durations dec_sess enc_T mult k s1 = Some s2"
  shows "0 \<le> t s1 \<and> (k = 0 \<or> t s1 < enc_T) \<and> t s1 \<le> t s2 \<and> t s2 \<le> enc_T - 1 + dmax \<and>
         iters s2 = int (m + k) \<and> iters s2 \<le> enc_T * mult"
proof -
  have r2: "loop_iter blank durations dec_sess enc_T mult (m + k) (init_state blank h0 c0) = Some s2"
    unfolding loop_iter_add using assms(5,6) by blast
  have a: "0 \<le> t s1" using loop_iter_init_iters [OF assms(5)] by simp
  have h: "k = 0 \<or> t s1 < enc_T"
  proof (cases k)
    case 0
    then show ?thesis by simp
  next
    case (Suc k')
    with assms(6) have "loop_cond enc_T mult s1" by (auto split: if_splits)
    then show ?thesis by (simp add: loop_cond_def)
  qed
  have b: "t s1 \<le> t s2" using loop_iter_t [OF assms(6)] by simp
  have c: "t s2 \<le> enc_T - 1 + dmax"
    using loop_iter_init_t_upper [OF assms(1) assms(3) assms(4) r2] .
  have d: "iters s2 = int (m + k)" using loop_iter_init_iters [OF r2] by simp
  have e: "iters s2 \<le> enc_T * mult"
    using loop_iter_init_bounds [OF assms(1,2) r2] d by simp
  show ?thesis using a h b c d e by simp
qed

text \<open>
  The claim as stated, \<open>t \<le> enc_T\<close> at every step, fails: with three frames, an emit
  at frame 2 with duration 2 moves \<open>t\<close> to 4.
\<close>

theorem t_exceeds_T_counterexample:
  "tdt_loop 2 tdt_durations (const_session logits_tok0_dur2 3) 3 10 (init_state 2 0 0) =
     Inr \<lparr>tokens = [0, 0], t = 4, last_label = 0, iters = 2, lstm_h = 2, lstm_c = 2\<rparr> \<and>
   \<not> t \<lparr>tokens = [0, 0], t = 4, last_label = 0, iters = 2, lstm_h = 2::nat, lstm_c = 2\<rparr> \<le> 3"
  using run_tok0_dur2 by simp

theorem frame_index_invariant_witness:
  "(1::int) \<le> 3 \<and> (1::int) \<le> 10 \<and> (1::int) \<le> 4 \<and>
   loop_iter 2 tdt_durations (const_session logits_tok0_dur2 3) 3 10 1 (init_state 2 0 0) =
     Some \<lparr>tokens = [0], t = 2, last_label = 0, iters = 1, lstm_h = 1, lstm_c = 1\<rparr> \<and>
   loop_iter 2 tdt_durations (const_session logits_tok0_dur2 3) 3 10 1
       \<lparr>tokens = [0], t = 2, last_label = 0, iters = 1, lstm_h = 1, lstm_c = 1\<rparr> =
     Some \<lparr>tokens = [0, 0], t = 4, last_label = 0, iters = 2, lstm_h = 2, lstm_c = 2\<rparr> \<and>
   (0::int) \<le> 2 \<and> (2::int) < 3 \<and> (2::int) \<le> 4 \<and> (4::int) \<le> 3 - 1 + 4 \<and>
   (2::int) = int (1 + 1) \<and> (2::int) \<le> 3 * 10"
proof -
  have h1: "(1::int) \<le> 3" and h2: "(1::int) \<le> 10" and h4: "(1::int) \<le> 4" by simp_all
  have h3: "\<forall>d\<in>set tdt_durations. d \<le> 4" by (simp add: tdt_durations_def)
  show ?thesis
    using h1 h2 h4 run_tok0_dur2_1 run_tok0_dur2_2
      frame_index_invariant [OF h1 h2 h3 h4 run_tok0_dur2_1 run_tok0_dur2_2]
    by simp
qed

text \<open>
  Claim C4. In every run from the initial state \<open>t\<close> never decreases from one reached
  state to a later one, and when the loop returns a state that is not truncated (the cap
  was not what stopped it), that state is reached by the iterations and has
  \<open>enc_T \<le> t\<close>.
\<close>

theorem t_reaches_T_unless_truncated:
  "(loop_iter blank durations dec_sess enc_T mult m (init_state blank h0 c0) = Some s1 \<and>
    loop_iter blank durations dec_sess enc_T mult k s1 = Some s2 \<longrightarrow> t s1 \<le> t s2) \<and>
   (tdt_loop blank durations dec_sess enc_T mult (init_state blank h0 c0) = Inr sf \<and>
    \<not> truncated enc_T mult sf \<longrightarrow>
      enc_T \<le> t sf \<and>
      (\<exists>n. loop_iter blank durations dec_sess enc_T mult n (init_state blank h0 c0) = Some sf))"
proof (intro conjI impI)
  assume "loop_iter blank durations dec_sess enc_T mult m (init_state blank h0 c0) = Some s1 \<and>
    loop_iter blank durations dec_sess enc_T mult k s1 = Some s2"
  then show "t s1 \<le> t s2" using loop_iter_t [of blank durations dec_sess enc_T mult k s1 s2] by simp
next
  assume a: "tdt_loop blank durations dec_sess enc_T mult (init_state blank h0 c0) = Inr sf \<and>
    \<not> truncated enc_T mult sf"
  then have "\<not> loop_cond enc_T mult sf" using tdt_loop_Inr_iter by blast
  with a show "enc_T \<le> t sf" by (auto simp: loop_cond_def truncated_def)
next
  assume a: "tdt_loop blank durations dec_sess enc_T mult (init_state blank h0 c0) = Inr sf \<and>
    \<not> truncated enc_T mult sf"
  then show "\<exists>n. loop_iter blank durations dec_sess enc_T mult n (init_state blank h0 c0) = Some sf"
    using tdt_loop_Inr_iter by blast
qed

theorem t_reaches_T_unless_truncated_witness:
  "loop_iter 2 tdt_durations (const_session logits_tok0_dur2 3) 3 10 1 (init_state 2 0 0) =
     Some \<lparr>tokens = [0], t = 2, last_label = 0, iters = 1, lstm_h = 1, lstm_c = 1\<rparr> \<and>
   loop_iter 2 tdt_durations (const_session logits_tok0_dur2 3) 3 10 1
       \<lparr>tokens = [0], t = 2, last_label = 0, iters = 1, lstm_h = 1, lstm_c = 1\<rparr> =
     Some \<lparr>tokens = [0, 0], t = 4, last_label = 0, iters = 2, lstm_h = 2, lstm_c = 2\<rparr> \<and>
   (2::int) \<le> 4 \<and>
   tdt_loop 2 tdt_durations (const_session logits_tok0_dur2 3) 3 10 (init_state 2 0 0) =
     Inr \<lparr>tokens = [0, 0], t = 4, last_label = 0, iters = 2, lstm_h = 2, lstm_c = 2\<rparr> \<and>
   \<not> truncated 3 10 \<lparr>tokens = [0, 0], t = 4, last_label = 0, iters = 2,
                       lstm_h = 2::nat, lstm_c = 2\<rparr> \<and>
   (3::int) \<le> 4"
proof -
  have nt: "\<not> truncated 3 10 \<lparr>tokens = [0, 0], t = 4, last_label = 0, iters = 2,
                       lstm_h = 2::nat, lstm_c = 2\<rparr>"
    by (simp add: truncated_def)
  show ?thesis
    using run_tok0_dur2_1 run_tok0_dur2_2 run_tok0_dur2 nt
      t_reaches_T_unless_truncated [of 2 tdt_durations "const_session logits_tok0_dur2 3" 3 10 1 0 0
        "\<lparr>tokens = [0], t = 2, last_label = 0, iters = 1, lstm_h = 1, lstm_c = 1\<rparr>" 1
        "\<lparr>tokens = [0, 0], t = 4, last_label = 0, iters = 2, lstm_h = 2, lstm_c = 2\<rparr>"
        "\<lparr>tokens = [0, 0], t = 4, last_label = 0, iters = 2, lstm_h = 2, lstm_c = 2\<rparr>"]
    by simp
qed

text \<open>
  Claim C5, as the code has it. For \<open>enc_T \<ge> 1\<close> and \<open>mult \<ge> 1\<close>, when every call of the
  session succeeds with at least \<open>enc_T\<close> frames and in every frame the best label is
  not blank and the best duration index has duration 0, the floor \<open>max 1 d\<close> of line 83
  advances \<open>t\<close> by 1 per iteration: the loop returns after exactly \<open>enc_T\<close> iterations
  with \<open>t = enc_T\<close>, \<open>enc_T\<close> emitted tokens, and not truncated.
\<close>

theorem zero_duration_run_ends_at_T:
  assumes "1 \<le> enc_T" and "1 \<le> mult"
    and "\<forall>lab h c. \<exists>joint h' c'. dec_sess lab h c = Inr (joint, h', c') \<and>
             enc_T \<le> int (length joint) \<and>
             (\<forall>logits\<in>set joint. \<exists>best dur_idx.
                np_argmax (take (blank + 1) logits) = Inr best \<and> best \<noteq> blank \<and>
                np_argmax (drop (blank + 1) logits) = Inr dur_idx \<and>
                py_index durations (int dur_idx) = Inr 0)"
  shows "\<exists>sf. tdt_loop blank durations dec_sess enc_T mult (init_state blank h0 c0) = Inr sf \<and>
           iters sf = enc_T \<and> t sf = enc_T \<and> int (length (tokens sf)) = enc_T \<and>
           \<not> truncated enc_T mult sf"
proof -
  have "0 \<le> t (init_state blank h0 c0)" "t (init_state blank h0 c0) \<le> enc_T"
       "iters (init_state blank h0 c0) = t (init_state blank h0 c0)"
    using assms(1) by (simp_all add: init_state_def)
  from zero_duration_run [OF assms(3) assms(2) this] obtain sf where
    "tdt_loop blank durations dec_sess enc_T mult (init_state blank h0 c0) = Inr sf"
    "t sf = enc_T" "iters sf = enc_T"
    "int (length (tokens sf)) =
       int (length (tokens (init_state blank h0 c0))) + (enc_T - t (init_state blank h0 c0))"
    by blast
  then show ?thesis by (auto simp: init_state_def truncated_def)
qed

text \<open>
  The claim as stated, that this run hits the cap of \<open>enc_T * mult\<close> iterations,
  is truncated and emits as many tokens as the cap, fails: with one frame and the
  multiplier 10 the run takes one iteration, emits one token and is not truncated.
\<close>

theorem zero_duration_not_truncated_counterexample:
  "np_argmax (take (2 + 1) logits_tok0_dur0) = Inr 0 \<and>
   np_argmax (drop (2 + 1) logits_tok0_dur0) = Inr 0 \<and>
   py_index tdt_durations 0 = Inr 0 \<and>
   tdt_loop 2 tdt_durations (const_session logits_tok0_dur0 1) 1 10 (init_state 2 0 0) =
     Inr \<lparr>tokens = [0], t = 1, last_label = 0, iters = 1, lstm_h = 1, lstm_c = 1\<rparr> \<and>
   \<not> truncated 1 10 \<lparr>tokens = [0], t = 1, last_label = 0, iters = 1,
                       lstm_h = 1::nat, lstm_c = 1\<rparr> \<and>
   int (length [0::int]) \<noteq> 1 * 10"
  by (simp add: init_state_def loop_cond_def loop_body_def const_session_def
        logits_tok0_dur0_def py_index_def np_argmax_def le_f_def tdt_durations_def
        truncated_def)

theorem zero_duration_run_ends_at_T_witness:
  "(1::int) \<le> 2 \<and> (1::int) \<le> 10 \<and>
   (\<exists>sf. tdt_loop 2 tdt_durations (const_session logits_tok0_dur0 2) 2 10 (init_state 2 0 0) = Inr sf \<and>
         iters sf = 2 \<and> t sf = 2 \<and> int (length (tokens sf)) = 2 \<and> \<not> truncated 2 10 sf)"
proof -
  have h1: "(1::int) \<le> 2" and h2: "(1::int) \<le> 10" by simp_all
  have h3: "\<forall>lab h c. \<exists>joint h' c'. const_session logits_tok0_dur0 2 lab h c = Inr (joint, h', c') \<and>
             2 \<le> int (length joint) \<and>
             (\<forall>logits\<in>set joint. \<exists>best dur_idx.
                np_argmax (take (2 + 1) logits) = Inr best \<and> best \<noteq> 2 \<and>
                np_argmax (drop (2 + 1) logits) = Inr dur_idx \<and>
                py_index tdt_durations (int dur_idx) = Inr 0)"
    by (simp add: const_session_def logits_tok0_dur0_def py_index_def np_argmax_def le_f_def
          tdt_durations_def)
  show ?thesis
    using h1 h2 zero_duration_run_ends_at_T [OF h1 h2 h3, of 0 0] by simp
qed

text \<open>
  Claim C6. Every emitted id is a vocabulary id: in every state a run from the initial
  state reaches, and in the state the loop returns, each element of \<open>tokens\<close> lies in
  \<open>[0, blank)\<close>, so it is never the blank id. The vocabulary ids are those below the
  blank id, the index right after the last vocabulary id.
\<close>

theorem emitted_tokens_are_vocabulary_ids:
  "(loop_iter blank durations dec_sess enc_T mult n (init_state blank h0 c0) = Some s \<longrightarrow>
      (\<forall>x\<in>set (tokens s). 0 \<le> x \<and> x < int blank \<and> x \<noteq> int blank)) \<and>
   (tdt_loop blank durations dec_sess enc_T mult (init_state blank h0 c0) = Inr sf \<longrightarrow>
      (\<forall>x\<in>set (tokens sf). 0 \<le> x \<and> x < int blank \<and> x \<noteq> int blank))"
proof -
  have init: "\<forall>x\<in>set (tokens (init_state blank h0 c0)). 0 \<le> x \<and> x < int blank"
    by (simp add: init_state_def)
  have step: "\<forall>x\<in>set (tokens s'). 0 \<le> x \<and> x < int blank \<and> x \<noteq> int blank"
    if "loop_iter blank durations dec_sess enc_T mult n' (init_state blank h0 c0) = Some s'"
    for n' s'
    using loop_iter_tokens [OF that init] by auto
  show ?thesis using step tdt_loop_Inr_iter [of blank durations dec_sess enc_T mult "init_state blank h0 c0" sf]
    by blast
qed

theorem emitted_tokens_are_vocabulary_ids_witness:
  "loop_iter 2 tdt_durations (const_session logits_tok0_dur2 3) 3 10 1 (init_state 2 0 0) =
     Some \<lparr>tokens = [0], t = 2, last_label = 0, iters = 1, lstm_h = 1, lstm_c = 1\<rparr> \<and>
   tdt_loop 2 tdt_durations (const_session logits_tok0_dur2 3) 3 10 (init_state 2 0 0) =
     Inr \<lparr>tokens = [0, 0], t = 4, last_label = 0, iters = 2, lstm_h = 2, lstm_c = 2\<rparr> \<and>
   (0::int) \<le> 0 \<and> (0::int) < int 2 \<and> (0::int) \<noteq> int 2"
  using run_tok0_dur2_1 run_tok0_dur2
    emitted_tokens_are_vocabulary_ids [of 2 tdt_durations "const_session logits_tok0_dur2 3" 3 10 1 0 0
      "\<lparr>tokens = [0], t = 2, last_label = 0, iters = 1, lstm_h = 1, lstm_c = 1\<rparr>"
      "\<lparr>tokens = [0, 0], t = 4, last_label = 0, iters = 2, lstm_h = 2, lstm_c = 2\<rparr>"]
  by simp

text \<open>
  Claim C7 (scenario B). With three frames, the script's duration table
  \<open>[0, 1, 2, 3, 4]\<close>, blank id and multiplier, and a session that in every frame ranks
  piece 7 highest among the vocabulary-plus-blank logits and duration index 2 highest
  among the duration logits, the first iteration emits 7 at \<open>t = 0\<close> and moves to
  \<open>t = 2\<close>, the second emits 7 and moves to \<open>t = 4\<close>, and the decode returns the
  tokens \<open>[7, 7]\<close>, not truncated.
\<close>

theorem scenario_B_emits_7_7:
  fixes dec_sess :: "('a::linorder, 'st) session" and h0 c0 :: 'st
  assumes "\<forall>lab h c. \<exists>joint h' c'. dec_sess lab h c = Inr (joint, h', c') \<and>
             3 \<le> length joint \<and>
             (\<forall>logits\<in>set joint.
                np_argmax (take (blank_id + 1) logits) = Inr 7 \<and>
                np_argmax (drop (blank_id + 1) logits) = Inr 2)"
  shows "\<exists>s1 sf.
           loop_iter blank_id tdt_durations dec_sess 3 10 1 (init_state blank_id h0 c0) = Some s1 \<and>
           tokens s1 = [7] \<and> t s1 = 2 \<and>
           loop_iter blank_id tdt_durations dec_sess 3 10 2 (init_state blank_id h0 c0) = Some sf \<and>
           tokens sf = [7, 7] \<and> t sf = 4 \<and>
           tdt_decode dec_sess 3 h0 c0 = Inr sf \<and> \<not> truncated 3 10 sf"
proof -
  let ?s0 = "init_state blank_id h0 c0"
  have step: "\<exists>h c. loop_body blank_id tdt_durations dec_sess s =
                 Inr (s\<lparr>iters := iters s + 1, lstm_h := h, lstm_c := c,
                        tokens := tokens s @ [7], last_label := 7, t := t s + 2\<rparr>)"
    if r: "0 \<le> t s" "t s < 3" for s :: "'st decode_state"
  proof -
    from assms obtain joint h c where
      d: "dec_sess (last_label s) (lstm_h s) (lstm_c s) = Inr (joint, h, c)" and
      len: "3 \<le> length joint" and
      all: "\<forall>logits\<in>set joint.
                np_argmax (take (blank_id + 1) logits) = Inr 7 \<and>
                np_argmax (drop (blank_id + 1) logits) = Inr 2"
      by blast
    have lt: "t s < int (length joint)" using r(2) len by simp
    then have "joint ! nat (t s) \<in> set joint" using r(1) by simp
    with all have
      b: "np_argmax (take (blank_id + 1) (joint ! nat (t s))) = Inr 7" and
      di: "np_argmax (drop (blank_id + 1) (joint ! nat (t s))) = Inr 2"
      by simp_all
    have nb: "(7::nat) \<noteq> blank_id" by (simp add: blank_id_def)
    have dl: "2 < length tdt_durations" by (simp add: tdt_durations_def)
    have "loop_body blank_id tdt_durations dec_sess s =
            Inr (s\<lparr>iters := iters s + 1, lstm_h := h, lstm_c := c,
                   tokens := tokens s @ [int 7], last_label := int 7,
                   t := t s + max 1 (tdt_durations ! 2)\<rparr>)"
      using loop_body_emit [where dec_sess = dec_sess and s = s, OF d r(1) lt b nb di dl] .
    then have "loop_body blank_id tdt_durations dec_sess s =
            Inr (s\<lparr>iters := iters s + 1, lstm_h := h, lstm_c := c,
                   tokens := tokens s @ [7], last_label := 7, t := t s + 2\<rparr>)"
      by (simp add: tdt_durations_def)
    then show ?thesis by blast
  qed
  have "0 \<le> t ?s0" "t ?s0 < 3" by (simp_all add: init_state_def)
  from step [OF this] obtain h1 c1 where
    b0: "loop_body blank_id tdt_durations dec_sess ?s0 =
           Inr (?s0\<lparr>iters := iters ?s0 + 1, lstm_h := h1, lstm_c := c1,
                    tokens := tokens ?s0 @ [7], last_label := 7, t := t ?s0 + 2\<rparr>)"
    by blast
  define s1 where "s1 = ?s0\<lparr>iters := iters ?s0 + 1, lstm_h := h1, lstm_c := c1,
                    tokens := tokens ?s0 @ [7], last_label := 7, t := t ?s0 + 2\<rparr>"
  have s1: "tokens s1 = [7]" "t s1 = 2" "iters s1 = 1" by (simp_all add: s1_def init_state_def)
  have "0 \<le> t s1" "t s1 < 3" using s1 by simp_all
  from step [OF this] obtain h2 c2 where
    b1: "loop_body blank_id tdt_durations dec_sess s1 =
           Inr (s1\<lparr>iters := iters s1 + 1, lstm_h := h2, lstm_c := c2,
                   tokens := tokens s1 @ [7], last_label := 7, t := t s1 + 2\<rparr>)"
    by blast
  define sf where "sf = s1\<lparr>iters := iters s1 + 1, lstm_h := h2, lstm_c := c2,
                   tokens := tokens s1 @ [7], last_label := 7, t := t s1 + 2\<rparr>"
  have sf: "tokens sf = [7, 7]" "t sf = 4" "iters sf = 2" using s1 by (simp_all add: sf_def)
  have c0: "loop_cond 3 10 ?s0" by (simp add: loop_cond_def init_state_def)
  have c1: "loop_cond 3 10 s1" using s1 by (simp add: loop_cond_def)
  have c2: "\<not> loop_cond 3 10 sf" using sf by (simp add: loop_cond_def)
  have b0': "loop_body blank_id tdt_durations dec_sess ?s0 = Inr s1" using b0 by (simp add: s1_def)
  have b1': "loop_body blank_id tdt_durations dec_sess s1 = Inr sf" using b1 by (simp add: sf_def)
  have i1: "loop_iter blank_id tdt_durations dec_sess 3 10 1 ?s0 = Some s1"
    using c0 b0' by simp
  have i2: "loop_iter blank_id tdt_durations dec_sess 3 10 2 ?s0 = Some sf"
    using c0 b0' c1 b1' by (simp add: numeral_2_eq_2)
  have l2: "tdt_loop blank_id tdt_durations dec_sess 3 10 sf = Inr sf" using c2 by simp
  have l1: "tdt_loop blank_id tdt_durations dec_sess 3 10 s1 = Inr sf"
    using c1 b1' l2 by (subst tdt_loop.simps) simp
  have l0: "tdt_loop blank_id tdt_durations dec_sess 3 10 ?s0 = Inr sf"
    using c0 b0' l1 by (subst tdt_loop.simps) simp
  have tr: "\<not> truncated 3 10 sf" using sf by (simp add: truncated_def)
  show ?thesis using i1 i2 s1 sf l0 tr by (auto simp: tdt_decode_def)
qed

theorem scenario_B_emits_7_7_witness:
  "np_argmax (take (blank_id + 1) logits_tok7_dur2) = Inr 7 \<and>
   np_argmax (drop (blank_id + 1) logits_tok7_dur2) = Inr 2 \<and>
   (\<exists>sf. tdt_decode (const_session logits_tok7_dur2 3) 3 0 0 = Inr sf \<and>
         tokens sf = [7, 7] \<and> t sf = 4 \<and> \<not> truncated 3 10 sf)"
proof -
  have h: "\<forall>lab h c. \<exists>joint h' c'. const_session logits_tok7_dur2 3 lab h c = Inr (joint, h', c') \<and>
             3 \<le> length joint \<and>
             (\<forall>logits\<in>set joint.
                np_argmax (take (blank_id + 1) logits) = Inr 7 \<and>
                np_argmax (drop (blank_id + 1) logits) = Inr 2)"
    using argmax_logits_tok7 argmax_logits_dur2 by (simp add: const_session_def)
  show ?thesis
    using argmax_logits_tok7 argmax_logits_dur2 scenario_B_emits_7_7 [OF h, of 0 0] by blast
qed

text \<open>
  Claim C10. Every iteration that completes advances \<open>t\<close> by at least 1. Hence for
  \<open>enc_T \<ge> 1\<close>, every session and every \<open>mult \<ge> 1\<close> the loop stops after
  \<open>n \<le> enc_T\<close> whole iterations: either it returns a state with \<open>enc_T \<le> t\<close> that is
  not truncated, or iteration \<open>n + 1 \<le> enc_T\<close> raises. A truncated result is never
  returned.
\<close>

theorem every_iteration_advances_t:
  assumes "1 \<le> enc_T" and "1 \<le> mult"
  shows "(\<forall>s s'. loop_body blank durations dec_sess s = Inr s' \<longrightarrow> t s + 1 \<le> t s') \<and>
         (\<exists>n s. loop_iter blank durations dec_sess enc_T mult n (init_state blank h0 c0) = Some s \<and>
            int n \<le> enc_T \<and> int n \<le> t s \<and>
            ((\<not> loop_cond enc_T mult s \<and>
              tdt_loop blank durations dec_sess enc_T mult (init_state blank h0 c0) = Inr s \<and>
              enc_T \<le> t s \<and> \<not> truncated enc_T mult s) \<or>
             (loop_cond enc_T mult s \<and>
              (\<exists>e. loop_body blank durations dec_sess s = Inl e \<and>
                   tdt_loop blank durations dec_sess enc_T mult (init_state blank h0 c0) = Inl e) \<and>
              int n + 1 \<le> enc_T)))"
proof
  show "\<forall>s s'. loop_body blank durations dec_sess s = Inr s' \<longrightarrow> t s + 1 \<le> t s'"
    using loop_body_t_advances by blast
next
  from loop_stops [of blank durations dec_sess enc_T mult "init_state blank h0 c0"]
  obtain n s where
    it: "loop_iter blank durations dec_sess enc_T mult n (init_state blank h0 c0) = Some s" and
    fin: "(\<not> loop_cond enc_T mult s \<and>
           tdt_loop blank durations dec_sess enc_T mult (init_state blank h0 c0) = Inr s) \<or>
          (loop_cond enc_T mult s \<and>
           (\<exists>e. loop_body blank durations dec_sess s = Inl e \<and>
                tdt_loop blank durations dec_sess enc_T mult (init_state blank h0 c0) = Inl e))"
    by blast
  have i: "iters s = int n" and nt: "int n \<le> t s" using loop_iter_init_iters [OF it] by simp_all
  have nT: "int n \<le> enc_T" using loop_iter_init_bounds [OF assms it] by simp
  have cap: "enc_T \<le> enc_T * mult" using assms by (simp add: mult_le_cancel_left1)
  have ex: "\<not> loop_cond enc_T mult s \<Longrightarrow> enc_T \<le> t s"
    using i nt cap by (auto simp: loop_cond_def)
  have tr: "\<not> loop_cond enc_T mult s \<Longrightarrow> \<not> truncated enc_T mult s"
    using ex by (simp add: truncated_def)
  have c: "loop_cond enc_T mult s \<Longrightarrow> int n + 1 \<le> enc_T"
    using nt by (simp add: loop_cond_def)
  show "\<exists>n s. loop_iter blank durations dec_sess enc_T mult n (init_state blank h0 c0) = Some s \<and>
            int n \<le> enc_T \<and> int n \<le> t s \<and>
            ((\<not> loop_cond enc_T mult s \<and>
              tdt_loop blank durations dec_sess enc_T mult (init_state blank h0 c0) = Inr s \<and>
              enc_T \<le> t s \<and> \<not> truncated enc_T mult s) \<or>
             (loop_cond enc_T mult s \<and>
              (\<exists>e. loop_body blank durations dec_sess s = Inl e \<and>
                   tdt_loop blank durations dec_sess enc_T mult (init_state blank h0 c0) = Inl e) \<and>
              int n + 1 \<le> enc_T))"
    using it nT nt ex tr c fin by blast
qed

theorem every_iteration_advances_t_witness:
  "(1::int) \<le> 3 \<and> (1::int) \<le> 10 \<and>
   tdt_loop 2 tdt_durations (const_session logits_tok0_dur2 3) 3 10 (init_state 2 0 0) =
     Inr \<lparr>tokens = [0, 0], t = 4, last_label = 0, iters = 2, lstm_h = 2, lstm_c = 2\<rparr> \<and>
   (\<exists>n s. loop_iter 2 tdt_durations (const_session logits_tok0_dur2 3) 3 10 n (init_state 2 0 0) = Some s \<and>
      int n \<le> 3 \<and> int n \<le> t s \<and>
      tdt_loop 2 tdt_durations (const_session logits_tok0_dur2 3) 3 10 (init_state 2 0 0) = Inr s \<and>
      3 \<le> t s \<and> \<not> truncated 3 10 s)"
proof -
  have h1: "(1::int) \<le> 3" and h2: "(1::int) \<le> 10" by simp_all
  show ?thesis
    using h1 h2 run_tok0_dur2
      every_iteration_advances_t [OF h1 h2, of 2 tdt_durations "const_session logits_tok0_dur2 3" 0 0]
    by auto
qed

section \<open>The claims about text assembly\<close>

lemma join_pieces_nonneg:
  "\<forall>i\<in>set toks. 0 \<le> i \<Longrightarrow>
   join_pieces vocab toks =
     Inr (concat (map (\<lambda>i. vocab ! nat i) (filter (\<lambda>i. i < int (length vocab)) toks)))"
  by (induction toks) (simp_all add: py_index_def)

text \<open>
  Claim C8, as the code has it. When every id is in \<open>[0, length vocab)\<close>, the assembled
  text is the concatenation of the pieces in emission order, with every marker glyph
  replaced by one space, then stripped of leading and trailing whitespace. For the
  vocabulary of scenario D and the ids \<open>[0, 2, 1]\<close> that text is \<open>hifoo there\<close>: the piece
  \<open>foo\<close> has no marker, so no space precedes it.
\<close>

theorem assemble_concat_replace_strip:
  assumes "\<forall>i\<in>set toks. 0 \<le> i \<and> i < int (length vocab)"
  shows "assemble vocab toks =
           Inr (py_strip (replace_marker (concat (map (\<lambda>i. vocab ! nat i) toks)))) \<and>
         assemble vocab_D [0, 2, 1] = Inr (ascii ''hifoo there'')"
proof
  have f: "filter (\<lambda>i. i < int (length vocab)) toks = toks" using assms by (simp add: filter_id_conv)
  have "\<forall>i\<in>set toks. 0 \<le> i" using assms by simp
  from join_pieces_nonneg [OF this, of vocab] f
  show "assemble vocab toks =
           Inr (py_strip (replace_marker (concat (map (\<lambda>i. vocab ! nat i) toks))))"
    by (simp add: assemble_def)
next
  show "assemble vocab_D [0, 2, 1] = Inr (ascii ''hifoo there'')"
    by (simp add: assemble_def vocab_D_def py_index_def py_strip_def replace_marker_def
        marker_def is_space_def ascii_def)
qed

text \<open>
  The text the claim gives for scenario D, \<open>hi foo there\<close>, is not what line 85
  computes.
\<close>

theorem scenario_D_text_counterexample:
  "assemble vocab_D [0, 2, 1] = Inr (ascii ''hifoo there'') \<and>
   assemble vocab_D [0, 2, 1] \<noteq> Inr (ascii ''hi foo there'')"
  by (simp add: assemble_def vocab_D_def py_index_def py_strip_def replace_marker_def
        marker_def is_space_def ascii_def)

theorem assemble_concat_replace_strip_witness:
  "assemble vocab_D [3, 1] =
     Inr (py_strip (replace_marker (concat (map (\<lambda>i. vocab_D ! nat i) [3, 1])))) \<and>
   assemble vocab_D [3, 1] = Inr (ascii ''bar there'') \<and>
   assemble vocab_D [0, 2, 1] = Inr (ascii ''hifoo there'')"
proof -
  have h: "\<forall>i\<in>set [3, 1 :: int]. 0 \<le> i \<and> i < int (length vocab_D)"
    by (simp add: vocab_D_def)
  have e: "py_strip (replace_marker (concat (map (\<lambda>i. vocab_D ! nat i) [3, 1]))) = ascii ''bar there''"
    by (simp add: vocab_D_def py_strip_def replace_marker_def marker_def is_space_def ascii_def)
  show ?thesis using assemble_concat_replace_strip [OF h] e by simp
qed

lemma assemble_nonneg:
  assumes "\<forall>i\<in>set toks. 0 \<le> i"
  shows "assemble vocab toks =
           assemble vocab (filter (\<lambda>i. 0 \<le> i \<and> i < int (length vocab)) toks) \<and>
         assemble vocab toks =
           Inr (py_strip (replace_marker (concat (map (\<lambda>i. vocab ! nat i)
                  (filter (\<lambda>i. 0 \<le> i \<and> i < int (length vocab)) toks)))))"
proof -
  have f: "filter (\<lambda>i. 0 \<le> i \<and> i < int (length vocab)) toks =
           filter (\<lambda>i. i < int (length vocab)) toks"
    using assms by (intro filter_cong) auto
  have b: "\<forall>i\<in>set (filter (\<lambda>i. i < int (length vocab)) toks). 0 \<le> i" using assms by simp
  have ff: "filter (\<lambda>i. i < int (length vocab)) (filter (\<lambda>i. i < int (length vocab)) toks) =
            filter (\<lambda>i. i < int (length vocab)) toks"
    by simp
  show ?thesis
    unfolding f
    using join_pieces_nonneg [OF assms, of vocab] join_pieces_nonneg [OF b, of vocab] ff
    by (simp add: assemble_def)
qed

lemma init_tokens_range:
  "\<forall>x\<in>set (tokens (init_state blank h0 c0)). 0 \<le> x \<and> x < int blank"
  by (simp add: init_state_def)

text \<open>
  Claim C9. Line 85 assembles the list the loop has just built. For every vocabulary and
  every token list the decode loop returns, and every list it holds in a reached state,
  assembly drops each id outside \<open>[0, length vocab)\<close> as if it had not been emitted,
  never raises, and its text is the pieces of the remaining ids concatenated in order,
  markers replaced and stripped. The vocabulary is any list of pieces, of any length.
\<close>

theorem assemble_drops_out_of_range_ids:
  "(tdt_loop blank durations dec_sess enc_T mult (init_state blank h0 c0) = Inr sf \<longrightarrow>
      assemble vocab (tokens sf) =
        assemble vocab (filter (\<lambda>i. 0 \<le> i \<and> i < int (length vocab)) (tokens sf)) \<and>
      assemble vocab (tokens sf) =
        Inr (py_strip (replace_marker (concat (map (\<lambda>i. vocab ! nat i)
               (filter (\<lambda>i. 0 \<le> i \<and> i < int (length vocab)) (tokens sf))))))) \<and>
   (loop_iter blank durations dec_sess enc_T mult n (init_state blank h0 c0) = Some s \<longrightarrow>
      assemble vocab (tokens s) =
        assemble vocab (filter (\<lambda>i. 0 \<le> i \<and> i < int (length vocab)) (tokens s)) \<and>
      assemble vocab (tokens s) =
        Inr (py_strip (replace_marker (concat (map (\<lambda>i. vocab ! nat i)
               (filter (\<lambda>i. 0 \<le> i \<and> i < int (length vocab)) (tokens s)))))))"
proof (intro conjI impI)
  assume r: "tdt_loop blank durations dec_sess enc_T mult (init_state blank h0 c0) = Inr sf"
  then obtain k where
    "loop_iter blank durations dec_sess enc_T mult k (init_state blank h0 c0) = Some sf"
    using tdt_loop_Inr_iter by blast
  from loop_iter_tokens [OF this init_tokens_range]
  have nn: "\<forall>i\<in>set (tokens sf). 0 \<le> i" by simp
  show "assemble vocab (tokens sf) =
        assemble vocab (filter (\<lambda>i. 0 \<le> i \<and> i < int (length vocab)) (tokens sf))"
    using assemble_nonneg [OF nn, of vocab] by blast
  show "assemble vocab (tokens sf) =
        Inr (py_strip (replace_marker (concat (map (\<lambda>i. vocab ! nat i)
               (filter (\<lambda>i. 0 \<le> i \<and> i < int (length vocab)) (tokens sf))))))"
    using assemble_nonneg [OF nn, of vocab] by blast
next
  assume r: "loop_iter blank durations dec_sess enc_T mult n (init_state blank h0 c0) = Some s"
  from loop_iter_tokens [OF r init_tokens_range]
  have nn: "\<forall>i\<in>set (tokens s). 0 \<le> i" by simp
  show "assemble vocab (tokens s) =
        assemble vocab (filter (\<lambda>i. 0 \<le> i \<and> i < int (length vocab)) (tokens s))"
    using assemble_nonneg [OF nn, of vocab] by blast
  show "assemble vocab (tokens s) =
        Inr (py_strip (replace_marker (concat (map (\<lambda>i. vocab ! nat i)
               (filter (\<lambda>i. 0 \<le> i \<and> i < int (length vocab)) (tokens s))))))"
    using assemble_nonneg [OF nn, of vocab] by blast
qed

theorem assemble_drops_out_of_range_ids_witness:
  "tdt_loop 2 tdt_durations alt_session 3 10 (init_state 2 0 0) =
     Inr \<lparr>tokens = [0, 1], t = 4, last_label = 1, iters = 2, lstm_h = 2, lstm_c = 2\<rparr> \<and>
   loop_iter 2 tdt_durations alt_session 3 10 1 (init_state 2 0 0) =
     Some \<lparr>tokens = [0], t = 2, last_label = 0, iters = 1, lstm_h = 1, lstm_c = 1\<rparr> \<and>
   filter (\<lambda>i. 0 \<le> i \<and> i < int (length [ascii ''a''])) [0, 1] = [0] \<and>
   assemble [ascii ''a''] [0, 1] = assemble [ascii ''a''] [0] \<and>
   assemble [ascii ''a''] [0, 1] = Inr (ascii ''a'') \<and>
   assemble [ascii ''a''] [0] = Inr (ascii ''a'')"
proof -
  note inst = assemble_drops_out_of_range_ids [of 2 tdt_durations alt_session 3 10 0 0
      "\<lparr>tokens = [0, 1], t = 4, last_label = 1, iters = 2, lstm_h = 2, lstm_c = 2\<rparr>"
      "[ascii ''a'']" 1
      "\<lparr>tokens = [0], t = 2, last_label = 0, iters = 1, lstm_h = 1, lstm_c = 1\<rparr>"]
  have f: "filter (\<lambda>i. 0 \<le> i \<and> i < int (length [ascii ''a''])) [0, 1] = [0]" by simp
  have g: "filter (\<lambda>i. 0 \<le> i \<and> i < int (length [ascii ''a''])) [0] = [0]" by simp
  have e: "py_strip (replace_marker (concat (map (\<lambda>i. [ascii ''a''] ! nat i) [0]))) = ascii ''a''"
    by (simp add: py_strip_def replace_marker_def marker_def is_space_def ascii_def)
  have tk2: "tokens \<lparr>tokens = [0, 1], t = 4, last_label = 1, iters = 2,
                       lstm_h = 2::nat, lstm_c = 2\<rparr> = [0, 1]"
    and tk1: "tokens \<lparr>tokens = [0], t = 2, last_label = 0, iters = 1,
                       lstm_h = 1::nat, lstm_c = 1\<rparr> = [0]"
    by simp_all
  from inst run_alt have
    a: "assemble [ascii ''a''] [0, 1] =
          assemble [ascii ''a''] (filter (\<lambda>i. 0 \<le> i \<and> i < int (length [ascii ''a''])) [0, 1])" and
    b: "assemble [ascii ''a''] [0, 1] =
          Inr (py_strip (replace_marker (concat (map (\<lambda>i. [ascii ''a''] ! nat i)
                 (filter (\<lambda>i. 0 \<le> i \<and> i < int (length [ascii ''a''])) [0, 1])))))"
    unfolding tk2 by blast+
  from inst run_alt_1 have
    c: "assemble [ascii ''a''] [0] =
          Inr (py_strip (replace_marker (concat (map (\<lambda>i. [ascii ''a''] ! nat i)
                 (filter (\<lambda>i. 0 \<le> i \<and> i < int (length [ascii ''a''])) [0])))))"
    unfolding tk1 by blast
  have a': "assemble [ascii ''a''] [0, 1] = assemble [ascii ''a''] [0]" using a unfolding f .
  have b': "assemble [ascii ''a''] [0, 1] = Inr (ascii ''a'')" using b unfolding f e .
  have c': "assemble [ascii ''a''] [0] = Inr (ascii ''a'')" using c unfolding g e .
  show ?thesis using run_alt run_alt_1 f a' b' c' by blast
qed

end
